theory Spec2Isabelle
  imports Complex_Main "HOL-Library.Word"
begin

section \<open>VGA test pattern generator (amaranth_boards/test/vga.py)\<close>

text \<open>
  The generator is synchronous logic in one clock domain. Every register of the source
  (\<open>Signal\<close> driven from \<open>m.d.sync\<close>) is a field of a state record; one clock edge is a
  function from the state to the next state, all registers updated at once from the
  values before the edge. Every combinational signal (\<open>m.d.comb\<close>) is a function of the
  current state and inputs.

  Counters whose width comes from a run-time parameter (\<open>Signal(range(0, n))\<close>) are
  natural numbers, and the truncation of an assignment to the width of its target is
  written out. Colour channels, whose width is fixed by the output resource, are words.
  Python integers are \<open>int\<close>. The Python floats of the constructor are idealised as
  real numbers: products and quotients are exact, and \<open>round\<close> rounds half to even.
\<close>

subsection \<open>Timing constants\<close>

definition ACTPIXEL :: int where "ACTPIXEL = 640"
definition HPORCH_FRONT :: int where "HPORCH_FRONT = 16"
definition HPORCH_SYNC :: int where "HPORCH_SYNC = 96"
definition HPORCH_BACK :: int where "HPORCH_BACK = 48"
definition HTOTAL :: int where
  "HTOTAL = ACTPIXEL + HPORCH_FRONT + HPORCH_SYNC + HPORCH_BACK"

definition ACTLINE :: int where "ACTLINE = 480"
definition VPORCH_FRONT :: int where "VPORCH_FRONT = 10"
definition VPORCH_SYNC :: int where "VPORCH_SYNC = 2"
definition VPORCH_BACK :: int where "VPORCH_BACK = 33"
definition VTOTAL :: int where
  "VTOTAL = ACTLINE + VPORCH_FRONT + VPORCH_SYNC + VPORCH_BACK"

subsection \<open>Signal shapes\<close>

text \<open>
  \<open>Signal(range(0, n))\<close> is an unsigned signal just wide enough for \<open>0 .. n - 1\<close>:
  \<open>range_width n\<close> is the least \<open>w\<close> with \<open>n \<le> 2 ^ w\<close>. An empty range
  (\<open>n \<le> 0\<close>) and \<open>range(0, 1)\<close> both give a signal of width 0.
\<close>

fun range_width :: "nat \<Rightarrow> nat" where
  "range_width n = (if n \<le> 1 then 0 else Suc (range_width ((n + 1) div 2)))"

declare range_width.simps [simp del]

definition signal_width :: "int \<Rightarrow> nat" where
  "signal_width n = range_width (nat n)"

text \<open>Assigning a non-negative value to an unsigned signal of width \<open>w\<close> keeps its low \<open>w\<close> bits.\<close>

definition trunc :: "nat \<Rightarrow> nat \<Rightarrow> nat" where
  "trunc w v = v mod 2 ^ w"

subsection \<open>RGBOn\<close>

record ('r, 'g, 'b) rgb_on =
  r_on :: 'r
  g_on :: 'g
  b_on :: 'b

text \<open>
  \<open>x.eq(~0)\<close> drives every bit of the channel with 1 (Python's \<open>~0\<close> is \<open>-1\<close>, truncated
  to the channel); under \<open>halfbrite\<close> the later assignment \<open>x[-1].eq(0)\<close> overrides the
  top bit alone.
\<close>

definition on_value :: "bool \<Rightarrow> 'a::len word" where
  "on_value halfbrite =
     (if halfbrite then unset_bit (LENGTH('a) - 1) (- 1) else - 1)"

definition RGBOn_elaborate ::
  "bool \<Rightarrow> ('r::len word, 'g::len word, 'b::len word) rgb_on" where
  "RGBOn_elaborate halfbrite =
     \<lparr>r_on = on_value halfbrite, g_on = on_value halfbrite, b_on = on_value halfbrite\<rparr>"

subsection \<open>LineGen\<close>

record LineGen =
  block_cycles :: int
  actpixel :: int
  hporch_front :: int
  hporch_sync :: int
  hporch_back :: int
  htotal :: int

definition LineGen_init :: "int \<Rightarrow> int \<Rightarrow> int \<Rightarrow> int \<Rightarrow> LineGen" where
  "LineGen_init bc hf hs hb =
     \<lparr>block_cycles = bc, actpixel = 8 * bc, hporch_front = hf, hporch_sync = hs,
      hporch_back = hb, htotal = 8 * bc + hf + hs + hb\<rparr>"

text \<open>The constructor's defaults: \<open>block_cycles = ACTPIXEL // 8\<close> and the standard porches.\<close>

definition LineGen_default :: LineGen where
  "LineGen_default = LineGen_init (ACTPIXEL div 8) HPORCH_FRONT HPORCH_SYNC HPORCH_BACK"

record LineGen_state =
  pixel :: nat
  block_pixel :: nat
  block :: nat

definition LineGen_reset :: LineGen_state where
  "LineGen_reset = \<lparr>pixel = 0, block_pixel = 0, block = 0\<rparr>"

text \<open>One clock edge of \<open>LineGen\<close>: the three \<open>m.d.sync\<close> registers.\<close>

definition LineGen_sync :: "LineGen \<Rightarrow> LineGen_state \<Rightarrow> LineGen_state" where
  "LineGen_sync lg s =
     \<lparr>pixel = trunc (signal_width (htotal lg))
                (if int (pixel s) = htotal lg - 1 then 0 else pixel s + 1),
      block_pixel =
        (if int (pixel s) = htotal lg - 1 then 0
         else if int (block_pixel s) = block_cycles lg - 1 then 0
         else trunc (signal_width (block_cycles lg)) (block_pixel s + 1)),
      block =
        (if int (pixel s) = htotal lg - 1 then 0
         else if int (block_pixel s) = block_cycles lg - 1 then
           (if block s < 8 then trunc (signal_width 9) (block s + 1) else block s)
         else block s)\<rparr>"

definition LineGen_newline :: "LineGen \<Rightarrow> LineGen_state \<Rightarrow> bool" where
  "LineGen_newline lg s \<longleftrightarrow> int (pixel s) = htotal lg - 1"

definition LineGen_hsync :: "LineGen \<Rightarrow> LineGen_state \<Rightarrow> bool" where
  "LineGen_hsync lg s \<longleftrightarrow>
     int (pixel s) \<ge> actpixel lg + hporch_front lg
     \<and> int (pixel s) < actpixel lg + hporch_front lg + hporch_sync lg"

text \<open>The colour outputs: the \<open>vporch\<close> test first, then the \<open>Switch\<close> on \<open>block\<close>.\<close>

definition LineGen_rgb ::
  "bool \<Rightarrow> bool \<Rightarrow> nat \<Rightarrow> 'r::len word \<times> 'g::len word \<times> 'b::len word" where
  "LineGen_rgb vporch halfbrite blk =
     (let on = RGBOn_elaborate halfbrite :: ('r word, 'g word, 'b word) rgb_on in
      if vporch then (0, 0, 0)
      else if blk = 0 then (r_on on, 0, 0)
      else if blk = 1 then (0, g_on on, 0)
      else if blk = 2 then (0, 0, b_on on)
      else if blk = 3 then (0, 0, 0)
      else if blk = 4 then (r_on on, g_on on, 0)
      else if blk = 5 then (r_on on, 0, b_on on)
      else if blk = 6 then (0, g_on on, b_on on)
      else if blk = 7 then (r_on on, g_on on, b_on on)
      else (0, 0, 0))"

subsection \<open>VScanGen\<close>

record VScanGen_state =
  line :: nat

definition VScanGen_reset :: VScanGen_state where
  "VScanGen_reset = \<lparr>line = 0\<rparr>"

definition VScanGen_sync :: "bool \<Rightarrow> VScanGen_state \<Rightarrow> VScanGen_state" where
  "VScanGen_sync newline v =
     (if newline
      then \<lparr>line = trunc (signal_width VTOTAL)
                     (if int (line v) = VTOTAL - 1 then 0 else line v + 1)\<rparr>
      else v)"

definition VScanGen_vporch :: "VScanGen_state \<Rightarrow> bool" where
  "VScanGen_vporch v \<longleftrightarrow> int (line v) \<ge> ACTLINE"

definition VScanGen_vsync :: "VScanGen_state \<Rightarrow> bool" where
  "VScanGen_vsync v \<longleftrightarrow>
     int (line v) \<ge> ACTLINE + VPORCH_FRONT
     \<and> int (line v) < ACTLINE + VPORCH_FRONT + VPORCH_SYNC"

definition VScanGen_halfbrite :: "VScanGen_state \<Rightarrow> bool" where
  "VScanGen_halfbrite v \<longleftrightarrow> bit (line v) 6"

definition VScanGen_newframe :: "bool \<Rightarrow> VScanGen_state \<Rightarrow> bool" where
  "VScanGen_newframe newline v \<longleftrightarrow> int (line v) = VTOTAL - 1 \<and> newline"

subsection \<open>VGA\<close>

datatype error = ValueError

text \<open>Python's \<open>round(x)\<close>: to the nearest integer, a tie to the even one.\<close>

definition py_round :: "real \<Rightarrow> int" where
  "py_round x =
     (let f = \<lfloor>x\<rfloor>; d = x - of_int f in
      if d < 1 / 2 then f
      else if d > 1 / 2 then f + 1
      else if even f then f else f + 1)"

text \<open>Python's \<open>round(x, n)\<close> for \<open>n \<ge> 0\<close>: to the nearest multiple of \<open>10 ^ (- n)\<close>.\<close>

definition py_round_nd :: "real \<Rightarrow> nat \<Rightarrow> real" where
  "py_round_nd x n = of_int (py_round (x * 10 ^ n)) / 10 ^ n"

record VGA =
  res_name :: string
  res_num :: int
  freq_ratio :: real

definition VGA_init :: "string \<Rightarrow> int \<Rightarrow> real \<Rightarrow> error + VGA" where
  "VGA_init name num clk_freq =
     (let ratio = py_round_nd (clk_freq / 25200000) 4 in
      if ratio < 1 then Inl ValueError
      else Inr \<lparr>res_name = name, res_num = num, freq_ratio = ratio\<rparr>)"

text \<open>The \<open>LineGen\<close> that \<open>VGA.elaborate\<close> builds from the stored ratio.\<close>

definition VGA_linegen :: "VGA \<Rightarrow> LineGen" where
  "VGA_linegen vga =
     (let ratio = freq_ratio vga in
      if ratio < 101 / 100 then LineGen_default
      else
        (let hs = py_round (ratio * of_int HPORCH_SYNC);
             hb = py_round (ratio * of_int HPORCH_BACK);
             bc = py_round (ratio * of_int ACTPIXEL / 8);
             ht = py_round (ratio * of_int HTOTAL);
             hf = ht - (8 * bc + hs + hb)
         in LineGen_init bc hf hs hb))"

record VGA_state =
  linegen :: LineGen_state
  vgen :: VScanGen_state

definition VGA_reset :: VGA_state where
  "VGA_reset = \<lparr>linegen = LineGen_reset, vgen = VScanGen_reset\<rparr>"

text \<open>
  One clock edge of the composition: \<open>vgen.newline\<close> is wired combinationally to
  \<open>linegen.newline\<close>, so the line counter sees the pixel counter of before the edge.
\<close>

definition VGA_sync :: "LineGen \<Rightarrow> VGA_state \<Rightarrow> VGA_state" where
  "VGA_sync lg s =
     \<lparr>linegen = LineGen_sync lg (linegen s),
      vgen = VScanGen_sync (LineGen_newline lg (linegen s)) (vgen s)\<rparr>"

definition VGA_newframe :: "LineGen \<Rightarrow> VGA_state \<Rightarrow> bool" where
  "VGA_newframe lg s = VScanGen_newframe (LineGen_newline lg (linegen s)) (vgen s)"

record ('r, 'g, 'b) vga_pins =
  pin_r :: 'r
  pin_g :: 'g
  pin_b :: 'b
  pin_hs :: bool
  pin_vs :: bool

definition VGA_comb ::
  "LineGen \<Rightarrow> VGA_state \<Rightarrow> ('r::len word, 'g::len word, 'b::len word) vga_pins" where
  "VGA_comb lg s =
     (case LineGen_rgb (VScanGen_vporch (vgen s)) (VScanGen_halfbrite (vgen s))
             (block (linegen s)) of
        (r, g, b) \<Rightarrow>
          \<lparr>pin_r = r, pin_g = g, pin_b = b,
           pin_hs = (\<not> LineGen_hsync lg (linegen s)),
           pin_vs = (\<not> VScanGen_vsync (vgen s))\<rparr>)"

text \<open>The states the circuit can be in: reset, and whatever a clock edge makes of one.\<close>

inductive LineGen_reachable :: "LineGen \<Rightarrow> LineGen_state \<Rightarrow> bool" for lg where
  lg_reset: "LineGen_reachable lg LineGen_reset"
| lg_step: "LineGen_reachable lg s \<Longrightarrow> LineGen_reachable lg (LineGen_sync lg s)"

inductive VGA_reachable :: "LineGen \<Rightarrow> VGA_state \<Rightarrow> bool" for lg where
  vga_reset: "VGA_reachable lg VGA_reset"
| vga_step: "VGA_reachable lg s \<Longrightarrow> VGA_reachable lg (VGA_sync lg s)"

subsection \<open>Auxiliary facts\<close>

lemmas vga_consts =
  ACTPIXEL_def HPORCH_FRONT_def HPORCH_SYNC_def HPORCH_BACK_def HTOTAL_def
  ACTLINE_def VPORCH_FRONT_def VPORCH_SYNC_def VPORCH_BACK_def VTOTAL_def

lemma range_width_bound: "n \<le> 2 ^ range_width n"
proof (induction n rule: range_width.induct)
  case (1 n)
  show ?case
  proof (cases "n \<le> 1")
    case True
    then show ?thesis by (simp add: range_width.simps [of n])
  next
    case False
    with 1 have "(n + 1) div 2 \<le> 2 ^ range_width ((n + 1) div 2)" by simp
    then have "n \<le> 2 * 2 ^ range_width ((n + 1) div 2)" by linarith
    with False show ?thesis by (simp add: range_width.simps [of n])
  qed
qed

text \<open>A value inside the range a signal was declared with survives the assignment.\<close>

lemma trunc_id: "int v < n \<Longrightarrow> trunc (signal_width n) v = v"
proof -
  assume "int v < n"
  then have "v < nat n" by linarith
  also have "nat n \<le> 2 ^ range_width (nat n)" by (rule range_width_bound)
  finally show ?thesis by (simp add: trunc_def signal_width_def)
qed

lemma trunc_zero: "trunc w 0 = 0"
  by (simp add: trunc_def)

subsection \<open>The horizontal counter\<close>

lemma LineGen_sync_pixel:
  assumes "int (pixel s) < htotal lg"
  shows "pixel (LineGen_sync lg s) = (if int (pixel s) = htotal lg - 1 then 0 else pixel s + 1)"
proof (cases "int (pixel s) = htotal lg - 1")
  case True
  then show ?thesis by (simp add: LineGen_sync_def trunc_zero)
next
  case False
  with assms have "int (pixel s + 1) < htotal lg" by simp
  then have "trunc (signal_width (htotal lg)) (pixel s + 1) = pixel s + 1" by (rule trunc_id)
  with False show ?thesis by (simp add: LineGen_sync_def)
qed

lemma LineGen_pixel_bound:
  assumes "LineGen_reachable lg s" and "0 < htotal lg"
  shows "int (pixel s) < htotal lg"
  using assms
proof (induction rule: LineGen_reachable.induct)
  case lg_reset
  then show ?case by (simp add: LineGen_reset_def)
next
  case (lg_step s)
  then have b: "int (pixel s) < htotal lg" by simp
  show ?case using b by (simp add: LineGen_sync_pixel [OF b])
qed

lemma LineGen_sync_pixel_mod:
  assumes "int (pixel s) < htotal lg"
  shows "pixel (LineGen_sync lg s) = (pixel s + 1) mod nat (htotal lg)"
proof (cases "int (pixel s) = htotal lg - 1")
  case True
  then have "pixel s + 1 = nat (htotal lg)" by linarith
  with True show ?thesis by (simp add: LineGen_sync_pixel [OF assms])
next
  case False
  with assms have "pixel s + 1 < nat (htotal lg)" by linarith
  with False show ?thesis by (simp add: LineGen_sync_pixel [OF assms])
qed

lemma LineGen_reachable_funpow: "LineGen_reachable lg ((LineGen_sync lg ^^ n) LineGen_reset)"
  by (induction n) (auto intro: LineGen_reachable.intros)

text \<open>The pixel counter \<open>n\<close> clock edges after reset.\<close>

lemma LineGen_pixel_funpow:
  assumes "0 < htotal lg"
  shows "pixel ((LineGen_sync lg ^^ n) LineGen_reset) = n mod nat (htotal lg)"
proof (induction n)
  case 0
  show ?case by (simp add: LineGen_reset_def)
next
  case (Suc n)
  have "int (pixel ((LineGen_sync lg ^^ n) LineGen_reset)) < htotal lg"
    using LineGen_reachable_funpow assms by (rule LineGen_pixel_bound)
  then have "pixel ((LineGen_sync lg ^^ Suc n) LineGen_reset)
      = (pixel ((LineGen_sync lg ^^ n) LineGen_reset) + 1) mod nat (htotal lg)"
    by (simp add: LineGen_sync_pixel_mod)
  also have "\<dots> = Suc n mod nat (htotal lg)"
    by (simp add: Suc.IH mod_Suc_eq)
  finally show ?case .
qed

lemma htotal_default: "htotal LineGen_default = 800"
  by (simp add: LineGen_default_def LineGen_init_def vga_consts)

text \<open>
  C1. In every state reachable from reset, a clock edge takes the pixel counter to its
  successor modulo \<open>htotal\<close> (from \<open>htotal - 1\<close> to 0), and \<open>newline\<close> is true exactly
  when the counter before the edge is \<open>htotal - 1\<close>; with more than one pixel per line the
  pulse lasts one cycle. The line length \<open>htotal\<close> is positive.
\<close>

theorem pixel_counter_step:
  assumes "LineGen_reachable lg s" and "0 < htotal lg"
  shows "pixel (LineGen_sync lg s) = (pixel s + 1) mod nat (htotal lg)
       \<and> (LineGen_newline lg s \<longleftrightarrow> int (pixel s) = htotal lg - 1)
       \<and> (1 < htotal lg \<and> LineGen_newline lg s \<longrightarrow> \<not> LineGen_newline lg (LineGen_sync lg s))"
proof -
  have b: "int (pixel s) < htotal lg" using assms by (rule LineGen_pixel_bound)
  have 1: "pixel (LineGen_sync lg s) = (pixel s + 1) mod nat (htotal lg)"
    using b by (rule LineGen_sync_pixel_mod)
  have 2: "LineGen_newline lg s \<longleftrightarrow> int (pixel s) = htotal lg - 1"
    by (simp add: LineGen_newline_def)
  have 3: "1 < htotal lg \<and> LineGen_newline lg s \<longrightarrow> \<not> LineGen_newline lg (LineGen_sync lg s)"
    by (auto simp: LineGen_newline_def LineGen_sync_pixel [OF b])
  from 1 2 3 show ?thesis by blast
qed

text \<open>The last pixel of a standard line, 799 edges after reset: the counter wraps to 0.\<close>

theorem pixel_counter_step_witness:
  "LineGen_reachable LineGen_default ((LineGen_sync LineGen_default ^^ 799) LineGen_reset)
   \<and> 0 < htotal LineGen_default
   \<and> pixel ((LineGen_sync LineGen_default ^^ 799) LineGen_reset) = 799
   \<and> pixel (LineGen_sync LineGen_default ((LineGen_sync LineGen_default ^^ 799) LineGen_reset)) = 0
   \<and> LineGen_newline LineGen_default ((LineGen_sync LineGen_default ^^ 799) LineGen_reset)
   \<and> \<not> LineGen_newline LineGen_default
         (LineGen_sync LineGen_default ((LineGen_sync LineGen_default ^^ 799) LineGen_reset))"
proof -
  let ?s = "(LineGen_sync LineGen_default ^^ 799) LineGen_reset"
  have r: "LineGen_reachable LineGen_default ?s" by (rule LineGen_reachable_funpow)
  have h: "0 < htotal LineGen_default" by (simp add: htotal_default)
  have p: "pixel ?s = 799" by (simp add: LineGen_pixel_funpow [OF h] htotal_default)
  from pixel_counter_step [OF r h] p r h show ?thesis
    by (simp add: htotal_default)
qed

subsection \<open>The block registers\<close>

lemma LineGen_block_inv:
  assumes "LineGen_reachable lg s" and "0 < htotal lg" and "0 < block_cycles lg"
  shows "int (pixel s) < htotal lg
       \<and> block_pixel s = pixel s mod nat (block_cycles lg)
       \<and> block s = min (pixel s div nat (block_cycles lg)) 8"
  using assms
proof (induction rule: LineGen_reachable.induct)
  case lg_reset
  then show ?case by (simp add: LineGen_reset_def)
next
  case (lg_step s)
  let ?bc = "nat (block_cycles lg)"
  from lg_step have b: "int (pixel s) < htotal lg"
    and bp: "block_pixel s = pixel s mod ?bc"
    and bl: "block s = min (pixel s div ?bc) 8" by simp_all
  have bc: "0 < ?bc" using lg_step.prems by simp
  have ibc: "block_cycles lg = int ?bc" using lg_step.prems by simp
  have r: "LineGen_reachable lg (LineGen_sync lg s)"
    using lg_step.hyps by (rule LineGen_reachable.lg_step)
  have b': "int (pixel (LineGen_sync lg s)) < htotal lg"
    using r lg_step.prems(1) by (rule LineGen_pixel_bound)
  show ?case
  proof (cases "int (pixel s) = htotal lg - 1")
    case True
    then show ?thesis using b' by (simp add: LineGen_sync_def trunc_zero)
  next
    case nw: False
    then have px: "pixel (LineGen_sync lg s) = Suc (pixel s)"
      by (simp add: LineGen_sync_pixel [OF b])
    show ?thesis
    proof (cases "int (block_pixel s) = block_cycles lg - 1")
      case True
      then have e: "Suc (pixel s mod ?bc) = ?bc" using bp bc by linarith
      have m: "Suc (pixel s) mod ?bc = 0" using e by (simp add: mod_Suc)
      have d: "Suc (pixel s) div ?bc = Suc (pixel s div ?bc)" using m by (simp add: div_Suc)
      have t: "block s < 8 \<Longrightarrow> trunc (signal_width 9) (block s + 1) = block s + 1"
        by (rule trunc_id) simp
      have bk: "block (LineGen_sync lg s) = min (Suc (pixel s div ?bc)) 8"
        using nw True bl t by (auto simp: LineGen_sync_def min_def)
      have bpz: "block_pixel (LineGen_sync lg s) = 0"
        using nw True by (simp add: LineGen_sync_def)
      show ?thesis using b' px m d bk bpz by simp
    next
      case False
      have lt: "pixel s mod ?bc < ?bc" using bc by simp
      with False bp ibc have ne: "Suc (pixel s mod ?bc) \<noteq> ?bc" by linarith
      with lt have lt': "Suc (pixel s mod ?bc) < ?bc" by linarith
      have m: "Suc (pixel s) mod ?bc = Suc (pixel s mod ?bc)" using ne by (simp add: mod_Suc)
      have d: "Suc (pixel s) div ?bc = pixel s div ?bc" using m by (simp add: div_Suc)
      have "int (block_pixel s + 1) < block_cycles lg" using lt' bp ibc by linarith
      then have t: "trunc (signal_width (block_cycles lg)) (block_pixel s + 1) = block_pixel s + 1"
        by (rule trunc_id)
      have bpz: "block_pixel (LineGen_sync lg s) = Suc (pixel s mod ?bc)"
        using nw False t bp by (simp add: LineGen_sync_def)
      have bk: "block (LineGen_sync lg s) = block s"
        using nw False by (simp add: LineGen_sync_def)
      show ?thesis using b' px m d bk bpz bl by simp
    qed
  qed
qed

text \<open>
  C10. From reset, for a \<open>LineGen\<close> with positive \<open>block_cycles\<close> and positive porches
  (its \<open>htotal\<close> is \<open>8 * block_cycles + hporch_front + hporch_sync + hporch_back\<close> by
  construction), the registered block index is always \<open>min (pixel div block_cycles) 8\<close>
  and the registered sub-counter is always \<open>pixel mod block_cycles\<close>.
\<close>

theorem block_state_no_drift:
  assumes "LineGen_reachable (LineGen_init bc hf hs hb) s"
    and "0 < bc" and "0 < hf" and "0 < hs" and "0 < hb"
  shows "htotal (LineGen_init bc hf hs hb) = 8 * bc + hf + hs + hb
       \<and> int (block s) = min (int (pixel s) div bc) 8
       \<and> int (block_pixel s) = int (pixel s) mod bc"
proof -
  let ?lg = "LineGen_init bc hf hs hb"
  have h: "0 < htotal ?lg" using assms(2-5) by (simp add: LineGen_init_def)
  have c: "0 < block_cycles ?lg" using assms(2) by (simp add: LineGen_init_def)
  have bc: "block_cycles ?lg = bc" by (simp add: LineGen_init_def)
  have ibc: "int (nat bc) = bc" using assms(2) by simp
  from LineGen_block_inv [OF assms(1) h c]
  have bp: "block_pixel s = pixel s mod nat bc"
    and bl: "block s = min (pixel s div nat bc) 8" by (simp_all add: bc)
  have 1: "int (block_pixel s) = int (pixel s) mod bc"
    using bp ibc by (metis zmod_int)
  have "int (pixel s div nat bc) = int (pixel s) div bc"
    using ibc by (metis zdiv_int)
  then have 2: "int (block s) = min (int (pixel s) div bc) 8"
    using bl by (simp add: min_def)
  from 1 2 show ?thesis by (simp add: LineGen_init_def)
qed

text \<open>The last pixel of a standard line: block 8, sub-counter 79.\<close>

theorem block_state_no_drift_witness:
  "LineGen_reachable (LineGen_init 80 16 96 48) ((LineGen_sync (LineGen_init 80 16 96 48) ^^ 799) LineGen_reset)
   \<and> pixel ((LineGen_sync (LineGen_init 80 16 96 48) ^^ 799) LineGen_reset) = 799
   \<and> block ((LineGen_sync (LineGen_init 80 16 96 48) ^^ 799) LineGen_reset) = 8
   \<and> block_pixel ((LineGen_sync (LineGen_init 80 16 96 48) ^^ 799) LineGen_reset) = 79"
proof -
  let ?lg = "LineGen_init 80 16 96 48"
  let ?s = "(LineGen_sync ?lg ^^ 799) LineGen_reset"
  have r: "LineGen_reachable ?lg ?s" by (rule LineGen_reachable_funpow)
  have h: "htotal ?lg = 800" by (simp add: LineGen_init_def)
  have p: "pixel ?s = 799" by (simp add: LineGen_pixel_funpow h)
  from block_state_no_drift [OF r] p r show ?thesis by simp
qed

subsection \<open>The vertical counter\<close>

lemma VTOTAL_525: "VTOTAL = 525"
  by (simp add: vga_consts)

lemma VScanGen_sync_line:
  assumes "int (line v) < VTOTAL"
  shows "line (VScanGen_sync nl v) = (if nl then (line v + 1) mod nat VTOTAL else line v)"
proof (cases nl)
  case False
  then show ?thesis by (simp add: VScanGen_sync_def)
next
  case True
  show ?thesis
  proof (cases "int (line v) = VTOTAL - 1")
    case w: True
    then have "line v + 1 = nat VTOTAL" by linarith
    with True w show ?thesis by (simp add: VScanGen_sync_def trunc_zero)
  next
    case w: False
    with assms have lt: "int (line v + 1) < VTOTAL" by simp
    then have "trunc (signal_width VTOTAL) (line v + 1) = line v + 1" by (rule trunc_id)
    moreover from lt have "line v + 1 < nat VTOTAL" by linarith
    ultimately show ?thesis using True w by (simp add: VScanGen_sync_def)
  qed
qed

lemma VGA_reachable_inv:
  assumes "VGA_reachable lg s"
  shows "LineGen_reachable lg (linegen s) \<and> int (line (vgen s)) < VTOTAL"
  using assms
proof (induction rule: VGA_reachable.induct)
  case vga_reset
  show ?case
    by (simp add: VGA_reset_def VScanGen_reset_def VTOTAL_525 LineGen_reachable.lg_reset)
next
  case (vga_step s)
  then have r: "LineGen_reachable lg (linegen s)" and b: "int (line (vgen s)) < VTOTAL"
    by simp_all
  have "int (line (VScanGen_sync (LineGen_newline lg (linegen s)) (vgen s))) < VTOTAL"
    using b by (simp add: VScanGen_sync_line [OF b] VTOTAL_525)
  with r show ?case
    by (simp add: VGA_sync_def LineGen_reachable.lg_step)
qed

lemma VGA_reachable_funpow: "VGA_reachable lg ((VGA_sync lg ^^ n) VGA_reset)"
  by (induction n) (auto intro: VGA_reachable.intros)

lemma VGA_linegen_funpow:
  "linegen ((VGA_sync lg ^^ n) VGA_reset) = (LineGen_sync lg ^^ n) LineGen_reset"
  by (induction n) (simp_all add: VGA_reset_def VGA_sync_def)

lemma div_Suc_wrap: "0 < h \<Longrightarrow> Suc n div h = (if Suc (n mod h) = h then Suc (n div h) else n div h)"
  by (simp add: div_Suc mod_Suc)

lemma VGA_line_funpow:
  assumes "0 < htotal lg"
  shows "line (vgen ((VGA_sync lg ^^ n) VGA_reset)) = (n div nat (htotal lg)) mod nat VTOTAL"
proof (induction n)
  case 0
  show ?case by (simp add: VGA_reset_def VScanGen_reset_def)
next
  case (Suc n)
  let ?s = "(VGA_sync lg ^^ n) VGA_reset"
  let ?h = "nat (htotal lg)"
  have h: "0 < ?h" using assms by simp
  have b: "int (line (vgen ?s)) < VTOTAL"
    using VGA_reachable_inv [OF VGA_reachable_funpow] by blast
  have p: "pixel (linegen ?s) = n mod ?h"
    by (simp add: VGA_linegen_funpow LineGen_pixel_funpow [OF assms])
  have nl: "LineGen_newline lg (linegen ?s) \<longleftrightarrow> Suc (n mod ?h) = ?h"
    using assms by (auto simp: LineGen_newline_def p)
  have "line (vgen ((VGA_sync lg ^^ Suc n) VGA_reset))
      = line (VScanGen_sync (LineGen_newline lg (linegen ?s)) (vgen ?s))"
    by (simp add: VGA_sync_def)
  also have "\<dots> = (if Suc (n mod ?h) = ?h then (line (vgen ?s) + 1) mod nat VTOTAL
                    else line (vgen ?s))"
    by (simp add: VScanGen_sync_line [OF b] nl)
  also have "\<dots> = (Suc n div ?h) mod nat VTOTAL"
    by (simp add: Suc.IH div_Suc_wrap [OF h] mod_Suc_eq)
  finally show ?case .
qed

text \<open>
  C2. In every state of the composed generator reachable from reset: a clock edge without
  \<open>newline\<close> leaves the line counter as it is, and a clock edge with \<open>newline\<close> takes
  it to its successor modulo \<open>VTOTAL\<close> on that same edge; \<open>newline\<close> is the test of the
  pixel counter of before the edge.
\<close>

theorem line_counter_step:
  assumes "VGA_reachable lg s"
  shows "(\<not> LineGen_newline lg (linegen s) \<longrightarrow>
            line (vgen (VGA_sync lg s)) = line (vgen s))
       \<and> (LineGen_newline lg (linegen s) \<longrightarrow>
            line (vgen (VGA_sync lg s)) = (line (vgen s) + 1) mod nat VTOTAL)
       \<and> (LineGen_newline lg (linegen s) \<longleftrightarrow> int (pixel (linegen s)) = htotal lg - 1)"
proof -
  have b: "int (line (vgen s)) < VTOTAL" using VGA_reachable_inv [OF assms] by blast
  show ?thesis
    by (simp add: VGA_sync_def VScanGen_sync_line [OF b] LineGen_newline_def)
qed

text \<open>The last pixel of the first line steps the line counter; the first pixel does not.\<close>

theorem line_counter_step_witness:
  "VGA_reachable LineGen_default ((VGA_sync LineGen_default ^^ 799) VGA_reset)
   \<and> LineGen_newline LineGen_default (linegen ((VGA_sync LineGen_default ^^ 799) VGA_reset))
   \<and> line (vgen ((VGA_sync LineGen_default ^^ 799) VGA_reset)) = 0
   \<and> line (vgen (VGA_sync LineGen_default ((VGA_sync LineGen_default ^^ 799) VGA_reset))) = 1
   \<and> VGA_reachable LineGen_default VGA_reset
   \<and> \<not> LineGen_newline LineGen_default (linegen VGA_reset)
   \<and> line (vgen (VGA_sync LineGen_default VGA_reset)) = 0"
proof -
  let ?s = "(VGA_sync LineGen_default ^^ 799) VGA_reset"
  have r: "VGA_reachable LineGen_default ?s" by (rule VGA_reachable_funpow)
  have r0: "VGA_reachable LineGen_default VGA_reset" by (rule VGA_reachable.vga_reset)
  have h: "0 < htotal LineGen_default" by (simp add: htotal_default)
  have p: "pixel (linegen ?s) = 799"
    by (simp add: VGA_linegen_funpow LineGen_pixel_funpow [OF h] htotal_default)
  have l: "line (vgen ?s) = 0" by (simp add: VGA_line_funpow [OF h] htotal_default)
  have nl: "LineGen_newline LineGen_default (linegen ?s)"
    by (simp add: LineGen_newline_def p htotal_default)
  have nl0: "\<not> LineGen_newline LineGen_default (linegen VGA_reset)"
    by (simp add: LineGen_newline_def VGA_reset_def LineGen_reset_def htotal_default)
  have l0: "line (vgen VGA_reset) = 0" by (simp add: VGA_reset_def VScanGen_reset_def)
  from line_counter_step [OF r] line_counter_step [OF r0] r r0 nl nl0 l l0 show ?thesis
    by (simp add: VTOTAL_525)
qed

subsection \<open>Frames\<close>

lemma VGA_newframe_funpow:
  assumes "0 < htotal lg" and "n < nat (htotal lg) * nat VTOTAL"
  shows "VGA_newframe lg ((VGA_sync lg ^^ n) VGA_reset) \<longleftrightarrow> n = nat (htotal lg) * nat VTOTAL - 1"
proof -
  let ?h = "nat (htotal lg)"
  have h: "0 < ?h" using assms(1) by simp
  have d: "n div ?h < 525" using assms(2) h
    by (simp add: VTOTAL_525 less_mult_imp_div_less mult.commute)
  have n: "n = n div ?h * ?h + n mod ?h" by simp
  have m: "n mod ?h < ?h" using h by simp
  have "VGA_newframe lg ((VGA_sync lg ^^ n) VGA_reset)
      \<longleftrightarrow> n div ?h = 524 \<and> int (n mod ?h) = htotal lg - 1"
    using d by (simp add: VGA_newframe_def VScanGen_newframe_def LineGen_newline_def
        VGA_line_funpow [OF assms(1)] VGA_linegen_funpow LineGen_pixel_funpow [OF assms(1)]
        VTOTAL_525)
  also have "\<dots> \<longleftrightarrow> n div ?h = 524 \<and> Suc (n mod ?h) = ?h"
    using assms(1) by auto
  also have "\<dots> \<longleftrightarrow> n = ?h * 525 - 1"
  proof
    assume a: "n div ?h = 524 \<and> Suc (n mod ?h) = ?h"
    then have "n = 524 * ?h + n mod ?h" using n by simp
    with a show "n = ?h * 525 - 1" by linarith
  next
    assume a: "n = ?h * 525 - 1"
    define k where "k = ?h - 1"
    have k: "k < ?h" "Suc k = ?h" using h by (simp_all add: k_def)
    have e: "n = 524 * ?h + k" using a k by linarith
    have 1: "n div ?h = 524" using k(1) by (simp add: e)
    have 2: "n mod ?h = k" using k(1) by (simp add: e)
    from 1 2 k show "n div ?h = 524 \<and> Suc (n mod ?h) = ?h" by simp
  qed
  finally show ?thesis by (simp add: VTOTAL_525)
qed

text \<open>
  C7. \<open>newframe\<close> is true exactly when the line counter is \<open>VTOTAL - 1\<close> and \<open>newline\<close>
  is true. Among the first \<open>htotal * VTOTAL\<close> cycles after reset it is true on exactly
  one, the last.
\<close>

theorem newframe_once_per_frame:
  "(VGA_newframe lg s \<longleftrightarrow> int (line (vgen s)) = VTOTAL - 1 \<and> LineGen_newline lg (linegen s))
   \<and> (0 < htotal lg \<longrightarrow>
        {n. n < nat (htotal lg) * nat VTOTAL \<and> VGA_newframe lg ((VGA_sync lg ^^ n) VGA_reset)}
          = {nat (htotal lg) * nat VTOTAL - 1}
        \<and> card {n. n < nat (htotal lg) * nat VTOTAL
                   \<and> VGA_newframe lg ((VGA_sync lg ^^ n) VGA_reset)} = 1)"
proof -
  have 1: "VGA_newframe lg s \<longleftrightarrow> int (line (vgen s)) = VTOTAL - 1 \<and> LineGen_newline lg (linegen s)"
    by (simp add: VGA_newframe_def VScanGen_newframe_def)
  have 2: "{n. n < nat (htotal lg) * nat VTOTAL \<and> VGA_newframe lg ((VGA_sync lg ^^ n) VGA_reset)}
          = {nat (htotal lg) * nat VTOTAL - 1}" if h: "0 < htotal lg"
  proof -
    have pos: "0 < nat (htotal lg) * nat VTOTAL" using h by (simp add: VTOTAL_525)
    show ?thesis
      using VGA_newframe_funpow [OF h] pos by auto
  qed
  from 1 2 show ?thesis by simp
qed

text \<open>The standard timing: one pulse in 420000 cycles, on cycle 419999.\<close>

theorem newframe_once_per_frame_witness:
  "0 < htotal LineGen_default
   \<and> {n. n < 800 * 525 \<and> VGA_newframe LineGen_default ((VGA_sync LineGen_default ^^ n) VGA_reset)}
       = {419999}
   \<and> card {n. n < 800 * 525
              \<and> VGA_newframe LineGen_default ((VGA_sync LineGen_default ^^ n) VGA_reset)} = 1"
  using newframe_once_per_frame [of LineGen_default VGA_reset]
  by (simp add: htotal_default VTOTAL_525)

subsection \<open>Sync windows\<close>

lemma VScanGen_line_funpow:
  "line ((VScanGen_sync True ^^ n) VScanGen_reset) = n mod nat VTOTAL"
proof (induction n)
  case 0
  show ?case by (simp add: VScanGen_reset_def)
next
  case (Suc n)
  have b: "int (line ((VScanGen_sync True ^^ n) VScanGen_reset)) < VTOTAL"
    by (simp add: Suc.IH VTOTAL_525)
  show ?case
    by (simp add: VScanGen_sync_line [OF b] Suc.IH mod_Suc_eq)
qed

lemma hsync_window:
  assumes "0 \<le> bc" "0 \<le> hf" "0 \<le> hs" "0 \<le> hb"
  shows "{n. n < nat (htotal (LineGen_init bc hf hs hb))
            \<and> LineGen_hsync (LineGen_init bc hf hs hb)
                 ((LineGen_sync (LineGen_init bc hf hs hb) ^^ n) LineGen_reset)}
       = {nat (8 * bc + hf) ..< nat (8 * bc + hf + hs)}"
proof -
  define lg where "lg = LineGen_init bc hf hs hb"
  define a where "a = 8 * bc + hf"
  have ht: "htotal lg = a + hs + hb"
    and ap: "actpixel lg + hporch_front lg = a" and sy: "hporch_sync lg = hs"
    by (simp_all add: lg_def a_def LineGen_init_def)
  have a0: "0 \<le> a" using assms by (simp add: a_def)
  have eq: "(n < nat (htotal lg) \<and> LineGen_hsync lg ((LineGen_sync lg ^^ n) LineGen_reset))
        = (nat a \<le> n \<and> n < nat (a + hs))" for n
  proof (cases "n < nat (htotal lg)")
    case True
    then have h: "0 < htotal lg" by simp
    have p: "pixel ((LineGen_sync lg ^^ n) LineGen_reset) = n"
      using True by (simp add: LineGen_pixel_funpow [OF h])
    have hsy: "LineGen_hsync lg ((LineGen_sync lg ^^ n) LineGen_reset)
        = (a \<le> int n \<and> int n < a + hs)"
      unfolding LineGen_hsync_def p ap sy ..
    have 1: "(a \<le> int n) = (nat a \<le> n)" using a0 by linarith
    have 2: "(int n < a + hs) = (n < nat (a + hs))" by linarith
    show ?thesis unfolding hsy 1 2 using True by simp
  next
    case False
    then have "\<not> n < nat (a + hs)" unfolding ht using assms(4) by linarith
    with False show ?thesis by simp
  qed
  have "{n. n < nat (htotal lg) \<and> LineGen_hsync lg ((LineGen_sync lg ^^ n) LineGen_reset)}
      = {n. nat a \<le> n \<and> n < nat (a + hs)}"
    unfolding eq ..
  also have "\<dots> = {nat a ..< nat (a + hs)}"
    by (simp add: atLeastLessThan_def atLeast_def lessThan_def Int_def)
  finally show ?thesis unfolding lg_def a_def .
qed

lemma vsync_window:
  "{n. n < nat VTOTAL \<and> VScanGen_vsync ((VScanGen_sync True ^^ n) VScanGen_reset)}
     = {nat (ACTLINE + VPORCH_FRONT) ..< nat (ACTLINE + VPORCH_FRONT + VPORCH_SYNC)}"
proof -
  have "n < nat VTOTAL \<and> VScanGen_vsync ((VScanGen_sync True ^^ n) VScanGen_reset)
        \<longleftrightarrow> nat (ACTLINE + VPORCH_FRONT) \<le> n
            \<and> n < nat (ACTLINE + VPORCH_FRONT + VPORCH_SYNC)" for n
  proof (cases "n < nat VTOTAL")
    case True
    then have l: "line ((VScanGen_sync True ^^ n) VScanGen_reset) = n"
      by (simp add: VScanGen_line_funpow)
    have "VScanGen_vsync ((VScanGen_sync True ^^ n) VScanGen_reset)
        \<longleftrightarrow> 490 \<le> n \<and> n < 492"
      unfolding VScanGen_vsync_def l by (simp add: vga_consts)
    with True show ?thesis by (simp add: vga_consts)
  next
    case False
    then show ?thesis by (simp add: vga_consts)
  qed
  then have "{n. n < nat VTOTAL \<and> VScanGen_vsync ((VScanGen_sync True ^^ n) VScanGen_reset)}
      = {n. nat (ACTLINE + VPORCH_FRONT) \<le> n
            \<and> n < nat (ACTLINE + VPORCH_FRONT + VPORCH_SYNC)}"
    by (rule Collect_cong)
  also have "\<dots> = {nat (ACTLINE + VPORCH_FRONT) ..< nat (ACTLINE + VPORCH_FRONT + VPORCH_SYNC)}"
    by (simp only: atLeastLessThan_def atLeast_def lessThan_def Int_def mem_Collect_eq)
  finally show ?thesis .
qed

text \<open>
  C3. \<open>hsync\<close> is true exactly when the pixel counter is in
  \<open>[actpixel + hporch_front, actpixel + hporch_front + hporch_sync)\<close>, and \<open>vsync\<close> exactly
  when the line counter is in \<open>[ACTLINE + VPORCH_FRONT, ACTLINE + VPORCH_FRONT + VPORCH_SYNC)\<close>.
  Hence, with non-negative timing parameters, the cycles of the first line after reset on
  which \<open>hsync\<close> is true are the \<open>hporch_sync\<close> cycles from \<open>actpixel + hporch_front\<close> on;
  and the lines of the first frame on which \<open>vsync\<close> is true are the \<open>VPORCH_SYNC\<close> lines
  from \<open>ACTLINE + VPORCH_FRONT\<close> on.
\<close>

theorem sync_windows:
  "(LineGen_hsync lg s \<longleftrightarrow>
      actpixel lg + hporch_front lg \<le> int (pixel s)
      \<and> int (pixel s) < actpixel lg + hporch_front lg + hporch_sync lg)
   \<and> (VScanGen_vsync v \<longleftrightarrow>
      ACTLINE + VPORCH_FRONT \<le> int (line v)
      \<and> int (line v) < ACTLINE + VPORCH_FRONT + VPORCH_SYNC)
   \<and> (0 \<le> bc \<and> 0 \<le> hf \<and> 0 \<le> hs \<and> 0 \<le> hb \<longrightarrow>
        {n. n < nat (htotal (LineGen_init bc hf hs hb))
            \<and> LineGen_hsync (LineGen_init bc hf hs hb)
                 ((LineGen_sync (LineGen_init bc hf hs hb) ^^ n) LineGen_reset)}
          = {nat (8 * bc + hf) ..< nat (8 * bc + hf) + nat hs}
        \<and> card {n. n < nat (htotal (LineGen_init bc hf hs hb))
            \<and> LineGen_hsync (LineGen_init bc hf hs hb)
                 ((LineGen_sync (LineGen_init bc hf hs hb) ^^ n) LineGen_reset)} = nat hs)
   \<and> {n. n < nat VTOTAL \<and> VScanGen_vsync ((VScanGen_sync True ^^ n) VScanGen_reset)}
        = {nat (ACTLINE + VPORCH_FRONT) ..< nat (ACTLINE + VPORCH_FRONT) + nat VPORCH_SYNC}
   \<and> card {n. n < nat VTOTAL \<and> VScanGen_vsync ((VScanGen_sync True ^^ n) VScanGen_reset)}
        = nat VPORCH_SYNC"
proof -
  have 1: "LineGen_hsync lg s \<longleftrightarrow>
      actpixel lg + hporch_front lg \<le> int (pixel s)
      \<and> int (pixel s) < actpixel lg + hporch_front lg + hporch_sync lg"
    by (simp add: LineGen_hsync_def)
  have 2: "VScanGen_vsync v \<longleftrightarrow>
      ACTLINE + VPORCH_FRONT \<le> int (line v)
      \<and> int (line v) < ACTLINE + VPORCH_FRONT + VPORCH_SYNC"
    by (simp add: VScanGen_vsync_def)
  have 3: "{n. n < nat (htotal (LineGen_init bc hf hs hb))
            \<and> LineGen_hsync (LineGen_init bc hf hs hb)
                 ((LineGen_sync (LineGen_init bc hf hs hb) ^^ n) LineGen_reset)}
          = {nat (8 * bc + hf) ..< nat (8 * bc + hf) + nat hs}"
    if "0 \<le> bc \<and> 0 \<le> hf \<and> 0 \<le> hs \<and> 0 \<le> hb"
  proof -
    from that have "nat (8 * bc + hf + hs) = nat (8 * bc + hf) + nat hs" by linarith
    with that hsync_window [of bc hf hs hb] show ?thesis by simp
  qed
  have 4: "{n. n < nat VTOTAL \<and> VScanGen_vsync ((VScanGen_sync True ^^ n) VScanGen_reset)}
        = {nat (ACTLINE + VPORCH_FRONT) ..< nat (ACTLINE + VPORCH_FRONT) + nat VPORCH_SYNC}"
  proof -
    have "nat (ACTLINE + VPORCH_FRONT + VPORCH_SYNC) = nat (ACTLINE + VPORCH_FRONT) + nat VPORCH_SYNC"
      by (simp add: vga_consts)
    with vsync_window show ?thesis by simp
  qed
  have c3: "card {n. n < nat (htotal (LineGen_init bc hf hs hb))
            \<and> LineGen_hsync (LineGen_init bc hf hs hb)
                 ((LineGen_sync (LineGen_init bc hf hs hb) ^^ n) LineGen_reset)} = nat hs"
    if "0 \<le> bc \<and> 0 \<le> hf \<and> 0 \<le> hs \<and> 0 \<le> hb"
    unfolding 3 [OF that] by (simp only: card_atLeastLessThan add_diff_cancel_left')
  have c4: "card {n. n < nat VTOTAL \<and> VScanGen_vsync ((VScanGen_sync True ^^ n) VScanGen_reset)}
        = nat VPORCH_SYNC"
    unfolding 4 by (simp only: card_atLeastLessThan add_diff_cancel_left')
  from 1 2 3 c3 4 c4 show ?thesis by blast
qed

text \<open>The standard line: \<open>hsync\<close> on the 96 cycles from 656 on.\<close>

theorem sync_windows_witness:
  "{n. n < nat (htotal (LineGen_init 80 16 96 48))
       \<and> LineGen_hsync (LineGen_init 80 16 96 48)
            ((LineGen_sync (LineGen_init 80 16 96 48) ^^ n) LineGen_reset)}
      = {nat (8 * 80 + 16) ..< nat (8 * 80 + 16) + nat 96}
   \<and> card {n. n < nat (htotal (LineGen_init 80 16 96 48))
       \<and> LineGen_hsync (LineGen_init 80 16 96 48)
            ((LineGen_sync (LineGen_init 80 16 96 48) ^^ n) LineGen_reset)} = nat 96"
proof -
  have h: "(0::int) \<le> 80 \<and> (0::int) \<le> 16 \<and> (0::int) \<le> 96 \<and> (0::int) \<le> 48" by simp
  from sync_windows [of LineGen_default LineGen_reset VScanGen_reset 80 16 96 48] h
  show ?thesis by blast
qed

subsection \<open>Colours\<close>

lemma on_value_half_mask: "(on_value True :: 'a::len word) = mask (LENGTH('a) - 1)"
  unfolding on_value_def
  by (rule bit_eqI) (auto simp: bit_simps)

lemma unat_mask_small: "n \<le> LENGTH('a) \<Longrightarrow> unat (mask n :: 'a::len word) = 2 ^ n - 1"
proof -
  assume n: "n \<le> LENGTH('a)"
  have "uint (mask n :: 'a word) = mask n" using n by (simp add: uint_mask_eq min_def)
  then have "unat (mask n :: 'a word) = nat (mask n)" by (simp add: unat_eq_nat_uint)
  also have "nat (mask n) = (mask n :: nat)" by (rule nat_mask_eq)
  also have "(mask n :: nat) = 2 ^ n - 1" by (rule mask_eq_exp_minus_1)
  finally show ?thesis .
qed

lemma on_value_half: "unat (on_value True :: 'a::len word) = 2 ^ (LENGTH('a) - 1) - 1"
  by (simp add: on_value_half_mask unat_mask_small)

lemma on_value_full: "unat (on_value False :: 'a::len word) = 2 ^ LENGTH('a) - 1"
  by (simp add: on_value_def unsigned_minus_1_eq_mask mask_eq_exp_minus_1)

lemma on_value_msb: "\<not> bit (on_value True :: 'a::len word) (LENGTH('a) - Suc 0)"
  by (simp add: on_value_def bit_simps)

text \<open>
  C8. For every channel width, the on-value of a channel is all ones, \<open>2 ^ w - 1\<close>, when
  \<open>halfbrite\<close> is low, and has its top bit cleared, \<open>2 ^ (w - 1) - 1\<close>, when \<open>halfbrite\<close>
  is high; for 8-bit channels these are \<open>0xFF\<close> and \<open>0x7F\<close>. (A channel has at least one
  bit: the top bit the source addresses, \<open>x[-1]\<close>, exists.)
\<close>

theorem rgb_on_values:
  "unat (r_on (RGBOn_elaborate False :: ('r::len word, 'g::len word, 'b::len word) rgb_on))
     = 2 ^ LENGTH('r) - 1
   \<and> unat (g_on (RGBOn_elaborate False :: ('r word, 'g word, 'b word) rgb_on))
     = 2 ^ LENGTH('g) - 1
   \<and> unat (b_on (RGBOn_elaborate False :: ('r word, 'g word, 'b word) rgb_on))
     = 2 ^ LENGTH('b) - 1
   \<and> unat (r_on (RGBOn_elaborate True :: ('r word, 'g word, 'b word) rgb_on))
     = 2 ^ (LENGTH('r) - 1) - 1
   \<and> unat (g_on (RGBOn_elaborate True :: ('r word, 'g word, 'b word) rgb_on))
     = 2 ^ (LENGTH('g) - 1) - 1
   \<and> unat (b_on (RGBOn_elaborate True :: ('r word, 'g word, 'b word) rgb_on))
     = 2 ^ (LENGTH('b) - 1) - 1
   \<and> \<not> bit (r_on (RGBOn_elaborate True :: ('r word, 'g word, 'b word) rgb_on)) (LENGTH('r) - 1)
   \<and> \<not> bit (g_on (RGBOn_elaborate True :: ('r word, 'g word, 'b word) rgb_on)) (LENGTH('g) - 1)
   \<and> \<not> bit (b_on (RGBOn_elaborate True :: ('r word, 'g word, 'b word) rgb_on)) (LENGTH('b) - 1)
   \<and> RGBOn_elaborate False = \<lparr>r_on = 0xFF :: 8 word, g_on = 0xFF :: 8 word, b_on = 0xFF :: 8 word\<rparr>
   \<and> RGBOn_elaborate True = \<lparr>r_on = 0x7F :: 8 word, g_on = 0x7F :: 8 word, b_on = 0x7F :: 8 word\<rparr>"
proof -
  have f8: "(on_value False :: 8 word) = 0xFF" by (simp add: on_value_def)
  have h8: "(on_value True :: 8 word) = 0x7F"
    by (simp add: on_value_half_mask mask_eq_exp_minus_1)
  show ?thesis
    by (simp add: RGBOn_elaborate_def on_value_full on_value_half on_value_msb f8 h8)
qed

text \<open>
  C6. With \<open>vporch\<close> high the pixel is black whatever the block and \<open>halfbrite\<close>. Otherwise
  block 0 is red, 1 green, 2 blue, 3 black, 4 red and green, 5 red and blue, 6 green and
  blue, 7 all three, and any block from 8 on is black.
\<close>

theorem rgb_pattern:
  "(LineGen_rgb True hb blk :: 'r::len word \<times> 'g::len word \<times> 'b::len word) = (0, 0, 0)
   \<and> (LineGen_rgb False hb 0 :: 'r word \<times> 'g word \<times> 'b word) = (on_value hb, 0, 0)
   \<and> (LineGen_rgb False hb 1 :: 'r word \<times> 'g word \<times> 'b word) = (0, on_value hb, 0)
   \<and> (LineGen_rgb False hb 2 :: 'r word \<times> 'g word \<times> 'b word) = (0, 0, on_value hb)
   \<and> (LineGen_rgb False hb 3 :: 'r word \<times> 'g word \<times> 'b word) = (0, 0, 0)
   \<and> (LineGen_rgb False hb 4 :: 'r word \<times> 'g word \<times> 'b word) = (on_value hb, on_value hb, 0)
   \<and> (LineGen_rgb False hb 5 :: 'r word \<times> 'g word \<times> 'b word) = (on_value hb, 0, on_value hb)
   \<and> (LineGen_rgb False hb 6 :: 'r word \<times> 'g word \<times> 'b word) = (0, on_value hb, on_value hb)
   \<and> (LineGen_rgb False hb 7 :: 'r word \<times> 'g word \<times> 'b word)
        = (on_value hb, on_value hb, on_value hb)
   \<and> (8 \<le> blk \<longrightarrow>
        (LineGen_rgb False hb blk :: 'r word \<times> 'g word \<times> 'b word) = (0, 0, 0))"
  by (simp add: LineGen_rgb_def RGBOn_elaborate_def)

text \<open>8-bit channels: block 8 is black, block 5 is magenta at full and at half brightness.\<close>

theorem rgb_pattern_witness:
  "(8::nat) \<le> 8
   \<and> (LineGen_rgb False False 8 :: 8 word \<times> 8 word \<times> 8 word) = (0, 0, 0)
   \<and> (LineGen_rgb True False 8 :: 8 word \<times> 8 word \<times> 8 word) = (0, 0, 0)
   \<and> (LineGen_rgb False False 5 :: 8 word \<times> 8 word \<times> 8 word) = (255, 0, 255)
   \<and> (LineGen_rgb False True 5 :: 8 word \<times> 8 word \<times> 8 word) = (127, 0, 127)"
proof -
  have f8: "(on_value False :: 8 word) = 255" by (simp add: on_value_def)
  have h8: "(on_value True :: 8 word) = 127"
    by (simp add: on_value_half_mask mask_eq_exp_minus_1)
  from rgb_pattern [where hb = False and blk = 8 and 'r = 8 and 'g = 8 and 'b = 8]
    rgb_pattern [where hb = True and blk = 8 and 'r = 8 and 'g = 8 and 'b = 8]
  show ?thesis by (simp add: f8 h8)
qed

subsection \<open>Construction and scaled timing\<close>

lemma py_round_lower: "x - 1 / 2 \<le> of_int (py_round x)"
  unfolding py_round_def Let_def by (auto; linarith)

lemma py_round_upper: "of_int (py_round x) \<le> x + 1 / 2"
  unfolding py_round_def Let_def by (auto; linarith)

lemma LineGen_default_fields:
  "LineGen_default = \<lparr>block_cycles = 80, actpixel = 640, hporch_front = 16, hporch_sync = 96,
     hporch_back = 48, htotal = 800\<rparr>"
  by (simp add: LineGen_default_def LineGen_init_def vga_consts)

lemma VGA_init_Inr:
  assumes "VGA_init name num f = Inr vga"
  shows "1 \<le> freq_ratio vga" and "freq_ratio vga = py_round_nd (f / 25200000) 4"
  using assms by (auto simp: VGA_init_def Let_def split: if_splits)

lemma VGA_linegen_default: "freq_ratio vga < 101 / 100 \<Longrightarrow> VGA_linegen vga = LineGen_default"
  by (simp add: VGA_linegen_def)

lemma VGA_linegen_scaled:
  assumes "101 / 100 \<le> freq_ratio vga"
  shows "VGA_linegen vga =
     LineGen_init (py_round (freq_ratio vga * of_int ACTPIXEL / 8))
       (py_round (freq_ratio vga * of_int HTOTAL)
          - (8 * py_round (freq_ratio vga * of_int ACTPIXEL / 8)
             + py_round (freq_ratio vga * of_int HPORCH_SYNC)
             + py_round (freq_ratio vga * of_int HPORCH_BACK)))
       (py_round (freq_ratio vga * of_int HPORCH_SYNC))
       (py_round (freq_ratio vga * of_int HPORCH_BACK))"
  using assms by (simp add: VGA_linegen_def Let_def)

lemma scaled_front_porch_pos:
  assumes "101 / 100 \<le> r"
  shows "0 < py_round (r * of_int HTOTAL)
          - (8 * py_round (r * of_int ACTPIXEL / 8)
             + py_round (r * of_int HPORCH_SYNC)
             + py_round (r * of_int HPORCH_BACK))"
proof -
  have t: "r * 800 - 1 / 2 \<le> of_int (py_round (r * 800))" by (rule py_round_lower)
  have a: "of_int (py_round (r * 640 / 8)) \<le> r * 640 / 8 + 1 / 2" by (rule py_round_upper)
  have s: "of_int (py_round (r * 96)) \<le> r * 96 + 1 / 2" by (rule py_round_upper)
  have b: "of_int (py_round (r * 48)) \<le> r * 48 + 1 / 2" by (rule py_round_upper)
  have "(0::real) < of_int (py_round (r * 800))
          - (8 * of_int (py_round (r * 640 / 8)) + of_int (py_round (r * 96))
             + of_int (py_round (r * 48)))"
    using t a s b assms by linarith
  then have "(0::real) < of_int (py_round (r * 800)
          - (8 * py_round (r * 640 / 8) + py_round (r * 96) + py_round (r * 48)))"
    by simp
  then have "0 < py_round (r * 800)
          - (8 * py_round (r * 640 / 8) + py_round (r * 96) + py_round (r * 48))"
    by (simp only: of_int_0_less_iff)
  then show ?thesis by (simp add: vga_consts)
qed


lemma VGA_init_12600000: "VGA_init name num 12600000 = Inl ValueError"
  by (simp add: VGA_init_def py_round_nd_def py_round_def)

lemma VGA_init_25200000:
  "VGA_init name num 25200000 = Inr \<lparr>res_name = name, res_num = num, freq_ratio = 1\<rparr>"
  by (simp add: VGA_init_def py_round_nd_def py_round_def)

lemma VGA_init_50400000:
  "VGA_init name num 50400000 = Inr \<lparr>res_name = name, res_num = num, freq_ratio = 2\<rparr>"
  by (simp add: VGA_init_def py_round_nd_def py_round_def)

lemma VGA_init_25351200:
  "VGA_init name num 25351200 = Inr \<lparr>res_name = name, res_num = num, freq_ratio = 503 / 500\<rparr>"
  by (simp add: VGA_init_def py_round_nd_def py_round_def)

lemma VGA_linegen_ratio_2:
  "VGA_linegen \<lparr>res_name = name, res_num = num, freq_ratio = 2\<rparr> = LineGen_init 160 32 192 96"
  by (simp add: VGA_linegen_def vga_consts py_round_def)

text \<open>
  C5. Constructing \<open>VGA\<close> fails with \<open>ValueError\<close> exactly when the clock ratio, rounded
  to four decimals, is below 1; otherwise the whole object is returned. At 12.6 MHz it
  fails; at 25.2 MHz it succeeds with ratio 1 and the generator runs on the literal
  timing: 640 active pixels, front porch 16, sync 96, back porch 48, and vertically 480,
  10, 2, 33.
\<close>

theorem VGA_init_ratio_check:
  "(VGA_init name num f = Inl ValueError \<longleftrightarrow> py_round_nd (f / 25200000) 4 < 1)
   \<and> (\<not> py_round_nd (f / 25200000) 4 < 1 \<longrightarrow>
        VGA_init name num f
          = Inr \<lparr>res_name = name, res_num = num, freq_ratio = py_round_nd (f / 25200000) 4\<rparr>)
   \<and> VGA_init name num 12600000 = Inl ValueError
   \<and> VGA_init name num 25200000 = Inr \<lparr>res_name = name, res_num = num, freq_ratio = 1\<rparr>
   \<and> VGA_linegen \<lparr>res_name = name, res_num = num, freq_ratio = 1\<rparr>
        = \<lparr>block_cycles = 80, actpixel = 640, hporch_front = 16, hporch_sync = 96,
           hporch_back = 48, htotal = 800\<rparr>
   \<and> ACTLINE = 480 \<and> VPORCH_FRONT = 10 \<and> VPORCH_SYNC = 2 \<and> VPORCH_BACK = 33"
proof -
  have 1: "VGA_init name num f = Inl ValueError \<longleftrightarrow> py_round_nd (f / 25200000) 4 < 1"
    by (simp add: VGA_init_def Let_def)
  have 2: "\<not> py_round_nd (f / 25200000) 4 < 1 \<longrightarrow>
        VGA_init name num f
          = Inr \<lparr>res_name = name, res_num = num, freq_ratio = py_round_nd (f / 25200000) 4\<rparr>"
    by (simp add: VGA_init_def Let_def)
  have 3: "VGA_linegen \<lparr>res_name = name, res_num = num, freq_ratio = 1\<rparr>
        = \<lparr>block_cycles = 80, actpixel = 640, hporch_front = 16, hporch_sync = 96,
           hporch_back = 48, htotal = 800\<rparr>"
    by (simp add: VGA_linegen_default LineGen_default_fields)
  have 4: "ACTLINE = 480 \<and> VPORCH_FRONT = 10 \<and> VPORCH_SYNC = 2 \<and> VPORCH_BACK = 33"
    by (simp add: vga_consts)
  from 1 2 3 4 VGA_init_12600000 VGA_init_25200000 show ?thesis by blast
qed

text \<open>50.4 MHz is accepted with ratio 2; 12.6 MHz has ratio 0.5 and is refused.\<close>

theorem VGA_init_ratio_check_witness:
  "\<not> py_round_nd (50400000 / 25200000) 4 < 1
   \<and> VGA_init ''vga'' 0 50400000 = Inr \<lparr>res_name = ''vga'', res_num = 0, freq_ratio = 2\<rparr>
   \<and> py_round_nd (12600000 / 25200000) 4 < 1
   \<and> VGA_init ''vga'' 0 12600000 = Inl ValueError"
proof -
  have r: "py_round_nd (50400000 / 25200000) 4 = 2"
    by (simp add: py_round_nd_def py_round_def)
  have h: "py_round_nd (12600000 / 25200000) 4 = 1 / 2"
    by (simp add: py_round_nd_def py_round_def)
  from VGA_init_ratio_check [of "''vga''" 0 50400000] VGA_init_ratio_check [of "''vga''" 0 12600000]
  show ?thesis unfolding r h by simp
qed

text \<open>
  C4, as stated, fails: at 25.3512 MHz the ratio is 1.006 and is accepted, but the sync
  width is the unscaled 96, not \<open>round (1.006 * 96) = 97\<close>, because ratios below 1.01
  take the default \<open>LineGen\<close>.
\<close>

theorem scaled_timing_counterexample:
  "VGA_init ''vga'' 0 25351200 = Inr \<lparr>res_name = ''vga'', res_num = 0, freq_ratio = 503 / 500\<rparr>
   \<and> 1 \<le> freq_ratio \<lparr>res_name = ''vga'', res_num = 0, freq_ratio = 503 / 500\<rparr>
   \<and> hporch_sync (VGA_linegen \<lparr>res_name = ''vga'', res_num = 0, freq_ratio = 503 / 500\<rparr>) = 96
   \<and> py_round (freq_ratio \<lparr>res_name = ''vga'', res_num = 0, freq_ratio = 503 / 500\<rparr> * 96) = 97
   \<and> hporch_sync (VGA_linegen \<lparr>res_name = ''vga'', res_num = 0, freq_ratio = 503 / 500\<rparr>)
        \<noteq> py_round (freq_ratio \<lparr>res_name = ''vga'', res_num = 0, freq_ratio = 503 / 500\<rparr> * 96)"
proof -
  have 1: "hporch_sync (VGA_linegen \<lparr>res_name = ''vga'', res_num = 0, freq_ratio = 503 / 500\<rparr>) = 96"
    by (simp add: VGA_linegen_default LineGen_default_fields)
  have 2: "py_round (freq_ratio \<lparr>res_name = ''vga'', res_num = 0, freq_ratio = 503 / 500\<rparr> * 96) = 97"
    by (simp add: py_round_def)
  show ?thesis unfolding 1 2 by (simp add: VGA_init_25351200)
qed

text \<open>
  C4, amended. Every accepted ratio is at least 1. From ratio 1.01 on, the sync width is
  \<open>round (ratio * 96)\<close>, the back porch \<open>round (ratio * 48)\<close>, the active region
  \<open>8 * round (ratio * 640 / 8)\<close>, and the front porch \<open>round (ratio * 800)\<close> minus the
  other three; below 1.01 the timing is the unscaled 640, 16, 96, 48.
\<close>

theorem scaled_timing:
  assumes "VGA_init name num f = Inr vga"
  shows "1 \<le> freq_ratio vga
   \<and> (101 / 100 \<le> freq_ratio vga \<longrightarrow>
        hporch_sync (VGA_linegen vga) = py_round (freq_ratio vga * 96)
        \<and> hporch_back (VGA_linegen vga) = py_round (freq_ratio vga * 48)
        \<and> actpixel (VGA_linegen vga) = 8 * py_round (freq_ratio vga * 640 / 8)
        \<and> hporch_front (VGA_linegen vga)
            = py_round (freq_ratio vga * 800)
              - (actpixel (VGA_linegen vga) + hporch_sync (VGA_linegen vga)
                 + hporch_back (VGA_linegen vga)))
   \<and> (freq_ratio vga < 101 / 100 \<longrightarrow>
        hporch_sync (VGA_linegen vga) = 96
        \<and> hporch_back (VGA_linegen vga) = 48
        \<and> actpixel (VGA_linegen vga) = 640
        \<and> hporch_front (VGA_linegen vga) = 16)"
proof -
  have 1: "1 \<le> freq_ratio vga" using assms by (rule VGA_init_Inr)
  have 2: "hporch_sync (VGA_linegen vga) = py_round (freq_ratio vga * 96)
        \<and> hporch_back (VGA_linegen vga) = py_round (freq_ratio vga * 48)
        \<and> actpixel (VGA_linegen vga) = 8 * py_round (freq_ratio vga * 640 / 8)
        \<and> hporch_front (VGA_linegen vga)
            = py_round (freq_ratio vga * 800)
              - (actpixel (VGA_linegen vga) + hporch_sync (VGA_linegen vga)
                 + hporch_back (VGA_linegen vga))" if "101 / 100 \<le> freq_ratio vga"
    by (simp add: VGA_linegen_scaled [OF that] LineGen_init_def vga_consts)
  have 3: "hporch_sync (VGA_linegen vga) = 96
        \<and> hporch_back (VGA_linegen vga) = 48
        \<and> actpixel (VGA_linegen vga) = 640
        \<and> hporch_front (VGA_linegen vga) = 16" if "freq_ratio vga < 101 / 100"
    by (simp add: VGA_linegen_default [OF that] LineGen_default_fields)
  from 1 2 3 show ?thesis by blast
qed

text \<open>50.4 MHz: sync 192, back porch 96, 1280 active pixels, front porch 32.\<close>

theorem scaled_timing_witness:
  "VGA_init ''vga'' 0 50400000 = Inr \<lparr>res_name = ''vga'', res_num = 0, freq_ratio = 2\<rparr>
   \<and> hporch_sync (VGA_linegen \<lparr>res_name = ''vga'', res_num = 0, freq_ratio = 2\<rparr>) = 192
   \<and> hporch_back (VGA_linegen \<lparr>res_name = ''vga'', res_num = 0, freq_ratio = 2\<rparr>) = 96
   \<and> actpixel (VGA_linegen \<lparr>res_name = ''vga'', res_num = 0, freq_ratio = 2\<rparr>) = 1280
   \<and> hporch_front (VGA_linegen \<lparr>res_name = ''vga'', res_num = 0, freq_ratio = 2\<rparr>) = 32"
proof -
  have i: "VGA_init ''vga'' 0 50400000 = Inr \<lparr>res_name = ''vga'', res_num = 0, freq_ratio = 2\<rparr>"
    by (rule VGA_init_50400000)
  have p: "py_round 192 = 192" "py_round 96 = 96" "py_round 160 = 160" "py_round 1600 = 1600"
    by (simp_all add: py_round_def)
  from scaled_timing [OF i] i show ?thesis by (simp add: p)
qed

text \<open>
  C9. For every accepted clock frequency the four horizontal components of the generator
  add up to its line length, which is \<open>HTOTAL\<close> below ratio 1.01 and
  \<open>round (ratio * HTOTAL)\<close> from there on, and the front porch is not negative; the four
  vertical constants add up to \<open>VTOTAL\<close>.
\<close>

theorem timing_sum:
  assumes "VGA_init name num f = Inr vga"
  shows "actpixel (VGA_linegen vga) + hporch_front (VGA_linegen vga)
           + hporch_sync (VGA_linegen vga) + hporch_back (VGA_linegen vga)
         = htotal (VGA_linegen vga)
   \<and> 0 \<le> hporch_front (VGA_linegen vga)
   \<and> htotal (VGA_linegen vga)
       = (if freq_ratio vga < 101 / 100 then HTOTAL
          else py_round (freq_ratio vga * of_int HTOTAL))
   \<and> ACTLINE + VPORCH_FRONT + VPORCH_SYNC + VPORCH_BACK = VTOTAL"
proof (cases "freq_ratio vga < 101 / 100")
  case True
  show ?thesis
    using True by (simp add: VGA_linegen_default [OF True] LineGen_default_fields vga_consts)
next
  case False
  then have r: "101 / 100 \<le> freq_ratio vga" by simp
  have fp: "0 < py_round (freq_ratio vga * of_int HTOTAL)
          - (8 * py_round (freq_ratio vga * of_int ACTPIXEL / 8)
             + py_round (freq_ratio vga * of_int HPORCH_SYNC)
             + py_round (freq_ratio vga * of_int HPORCH_BACK))"
    using r by (rule scaled_front_porch_pos)
  have v: "ACTLINE + VPORCH_FRONT + VPORCH_SYNC + VPORCH_BACK = VTOTAL"
    by (simp add: VTOTAL_def)
  show ?thesis
    using False fp v by (simp add: VGA_linegen_scaled [OF r] LineGen_init_def)
qed

text \<open>Ratio 2 gives 1280 + 32 + 192 + 96 = 1600; ratio 1 gives a line of 800 with front porch 16.\<close>

theorem timing_sum_witness:
  "VGA_init ''vga'' 0 50400000 = Inr \<lparr>res_name = ''vga'', res_num = 0, freq_ratio = 2\<rparr>
   \<and> VGA_linegen \<lparr>res_name = ''vga'', res_num = 0, freq_ratio = 2\<rparr>
       = \<lparr>block_cycles = 160, actpixel = 1280, hporch_front = 32, hporch_sync = 192,
          hporch_back = 96, htotal = 1600\<rparr>
   \<and> (1280::int) + 32 + 192 + 96 = 1600
   \<and> VGA_init ''vga'' 0 25200000 = Inr \<lparr>res_name = ''vga'', res_num = 0, freq_ratio = 1\<rparr>
   \<and> htotal (VGA_linegen \<lparr>res_name = ''vga'', res_num = 0, freq_ratio = 1\<rparr>) = 800
   \<and> hporch_front (VGA_linegen \<lparr>res_name = ''vga'', res_num = 0, freq_ratio = 1\<rparr>) = 16"
proof -
  have i2: "VGA_init ''vga'' 0 50400000 = Inr \<lparr>res_name = ''vga'', res_num = 0, freq_ratio = 2\<rparr>"
    by (rule VGA_init_50400000)
  have i1: "VGA_init ''vga'' 0 25200000 = Inr \<lparr>res_name = ''vga'', res_num = 0, freq_ratio = 1\<rparr>"
    by (rule VGA_init_25200000)
  have l1: "VGA_linegen \<lparr>res_name = ''vga'', res_num = 0, freq_ratio = 1\<rparr> = LineGen_default"
    by (simp add: VGA_linegen_default)
  from timing_sum [OF i2] timing_sum [OF i1] i1 i2 show ?thesis
    by (simp add: VGA_linegen_ratio_2 LineGen_init_def l1 LineGen_default_fields)
qed

end
